theory Spec2Isabelle
  imports Main "HOL-Library.AList" "HOL-Library.Sublist"
begin

section \<open>Exceptions and sequencing\<close>

text \<open>
  Every exception class that \<^verbatim>\<open>setup.py\<close> or the library calls it makes can raise is a
  constructor; a computation that may raise returns \<open>error + 'a\<close>, with \<open>Inl\<close> the
  exception.
\<close>

datatype error =
    FileNotFoundError
  | NotADirectoryError
  | OSError
  | JSONDecodeError
  | AttributeError
  | TypeError
  | ValueError
  | KeyError
  | NoSectionError
  | NoOptionError
  | DuplicateSectionError
  | DuplicateOptionError
  | InterpolationDepthError
  | InterpolationSyntaxError
  | InterpolationMissingOptionError
  | DistutilsError
  | OptionError

definition then_do :: "error + 'a \<Rightarrow> ('a \<Rightarrow> error + 'b) \<Rightarrow> error + 'b" where
  "then_do r f = (case r of Inl e \<Rightarrow> Inl e | Inr x \<Rightarrow> f x)"

text \<open>A \<^verbatim>\<open>for\<close> loop whose body may raise: the first exception ends the loop.\<close>

fun for_each :: "('a \<Rightarrow> 's \<Rightarrow> error + 's) \<Rightarrow> 'a list \<Rightarrow> 's \<Rightarrow> error + 's" where
  "for_each f [] s = Inr s"
| "for_each f (x # xs) s = then_do (f x s) (for_each f xs)"

section \<open>Python strings and dictionaries\<close>

text \<open>
  A Python \<^verbatim>\<open>str\<close> is a \<open>string\<close>; the model covers the code points below 256, one
  \<open>char\<close> each. A \<^verbatim>\<open>dict\<close> is an association list in insertion order whose keys are
  distinct: storing under a key that is present keeps the key's place and replaces the
  value, storing under a new key appends (\<open>AList.update\<close>).
\<close>

type_synonym 'v dict = "(string \<times> 'v) list"

text \<open>\<^verbatim>\<open>dict(d, **e)\<close> and \<^verbatim>\<open>d.update(e)\<close>: the entries of \<open>e\<close> are stored into \<open>d\<close> in order.\<close>

definition dict_update :: "'v dict \<Rightarrow> 'v dict \<Rightarrow> 'v dict" where
  "dict_update d e = fold (\<lambda>(k, v). AList.update k v) e d"

text \<open>A dictionary comprehension \<^verbatim>\<open>{k: v for ...}\<close> over the listed items.\<close>

definition dict_of_items :: "'v dict \<Rightarrow> 'v dict" where
  "dict_of_items items = dict_update [] items"

text \<open>\<^verbatim>\<open>s.replace(old, new)\<close>: the occurrences of \<open>old\<close> are found from the left and do not overlap.\<close>

function str_replace :: "string \<Rightarrow> string \<Rightarrow> string \<Rightarrow> string" where
  "str_replace old new [] = (if old = [] then new else [])"
| "str_replace old new (c # cs) =
     (if old = [] then new @ c # str_replace old new cs
      else if prefix old (c # cs) then new @ str_replace old new (drop (length old) (c # cs))
      else c # str_replace old new cs)"
  by pat_completeness auto
termination
  by (relation "measure (\<lambda>(old, new, s). length s)") auto

text \<open>\<^verbatim>\<open>s.split(sep)\<close> for a separator of one character.\<close>

fun split_on :: "char \<Rightarrow> string \<Rightarrow> string list" where
  "split_on sep [] = [[]]"
| "split_on sep (c # cs) =
     (if c = sep then [] # split_on sep cs
      else (case split_on sep cs of [] \<Rightarrow> [[c]] | w # ws \<Rightarrow> (c # w) # ws))"

text \<open>
  \<^verbatim>\<open>s.splitlines()\<close>: the line boundaries are LF, CR, CR LF, VT, FF, FS, GS, RS and NEL;
  the line ends are dropped, and a string that ends at a boundary has no empty last line.
\<close>

definition is_linebreak :: "char \<Rightarrow> bool" where
  "is_linebreak c =
     (c \<in> {CHR 0x0A, CHR 0x0D, CHR 0x0B, CHR 0x0C, CHR 0x1C, CHR 0x1D, CHR 0x1E, CHR 0x85})"

fun splitlines_from :: "string \<Rightarrow> string \<Rightarrow> string list" where
  "splitlines_from cur [] = (if cur = [] then [] else [cur])"
| "splitlines_from cur [c] = (if is_linebreak c then [cur] else [cur @ [c]])"
| "splitlines_from cur (c # d # cs) =
     (if c = CHR 0x0D \<and> d = CHR 0x0A then cur # splitlines_from [] cs
      else if is_linebreak c then cur # splitlines_from [] (d # cs)
      else splitlines_from (cur @ [c]) (d # cs))"

definition splitlines :: "string \<Rightarrow> string list" where
  "splitlines s = splitlines_from [] s"

text \<open>\<^verbatim>\<open>s.lower()\<close>: the upper-case letters below 256 are A to Z and 0xC0 to 0xDE without 0xD7.\<close>

definition char_lower :: "char \<Rightarrow> char" where
  "char_lower c =
     (let n = (of_char c :: nat)
      in if (65 \<le> n \<and> n \<le> 90) \<or> (192 \<le> n \<and> n \<le> 222 \<and> n \<noteq> 215)
         then char_of (n + 32) else c)"

definition lower :: "string \<Rightarrow> string" where
  "lower s = map char_lower s"

text \<open>\<^verbatim>\<open>sep.join(xs)\<close>.\<close>

fun join_with :: "string \<Rightarrow> string list \<Rightarrow> string" where
  "join_with sep [] = []"
| "join_with sep [x] = x"
| "join_with sep (x # y # ys) = x @ sep @ join_with sep (y # ys)"

text \<open>A list comprehension whose element expression may raise.\<close>

fun map_result :: "('a \<Rightarrow> error + 'b) \<Rightarrow> 'a list \<Rightarrow> error + 'b list" where
  "map_result f [] = Inr []"
| "map_result f (x # xs) =
     then_do (f x) (\<lambda>y. then_do (map_result f xs) (\<lambda>ys. Inr (y # ys)))"

section \<open>Paths\<close>

text \<open>
  A \<^verbatim>\<open>pathlib\<close> path on a POSIX host: its root and its components, with empty
  components and \<open>.\<close> dropped as the constructor does. The root is empty for a relative
  path, \<open>//\<close> for a string that starts with exactly two slashes, and \<open>/\<close> for any other
  string that starts with a slash.
\<close>

record posix_path =
  root :: string
  parts :: "string list"

definition Path :: "string \<Rightarrow> posix_path" where
  "Path s =
     \<lparr>root = (if take 2 s = ''//'' \<and> take 3 s \<noteq> ''///'' then ''//''
              else if take 1 s = ''/'' then ''/'' else []),
      parts = filter (\<lambda>seg. seg \<noteq> [] \<and> seg \<noteq> ''.'') (split_on CHR ''/'' s)\<rparr>"

definition joinpath :: "posix_path \<Rightarrow> string \<Rightarrow> posix_path" where
  "joinpath p s =
     (let q = Path s
      in if root q \<noteq> [] then q else \<lparr>root = root p, parts = parts p @ parts q\<rparr>)"

definition as_posix :: "posix_path \<Rightarrow> string" where
  "as_posix p =
     (if root p \<noteq> [] then root p @ join_with ''/'' (parts p)
      else if parts p = [] then ''.'' else join_with ''/'' (parts p))"

text \<open>\<^verbatim>\<open>Path(s).absolute()\<close> in the working directory \<open>cwd\<close>.\<close>

definition absolute :: "string \<Rightarrow> posix_path \<Rightarrow> posix_path" where
  "absolute cwd p = (if root p \<noteq> [] then p else joinpath (Path cwd) (as_posix p))"

section \<open>Constants of the layout\<close>

definition MAIN_FOLDER :: string where
  "MAIN_FOLDER = ''src/main''"

definition SRC_FOLDER :: string where
  "SRC_FOLDER = MAIN_FOLDER @ ''/python''"

definition RESOURCES_FOLDER :: string where
  "RESOURCES_FOLDER = MAIN_FOLDER @ ''/resources''"

definition TEST_FOLDER :: string where
  "TEST_FOLDER = ''src/test''"

definition TEST_SRC_FOLDER :: string where
  "TEST_SRC_FOLDER = TEST_FOLDER @ ''/python''"

definition TEST_RESOURCES_FOLDER :: string where
  "TEST_RESOURCES_FOLDER = TEST_FOLDER @ ''/resources''"

definition PROJECT_INI_FILE_PATH :: string where
  "PROJECT_INI_FILE_PATH = ''project.ini''"

definition INIT_ENV_VAR_SECTION :: string where
  "INIT_ENV_VAR_SECTION = ''ENV''"

definition INI_PROJECT_SECTION :: string where
  "INI_PROJECT_SECTION = ''PROJECT''"

definition INI_ENTRY_POINT_SECTION :: string where
  "INI_ENTRY_POINT_SECTION = INI_PROJECT_SECTION @ ''.ENTRY_POINTS''"

section \<open>Dependencies\<close>

text \<open>
  The files the setup functions read. \<open>text_files\<close> gives the content of each readable
  text file; \<open>json_files\<close> gives, for each readable file, the value \<^verbatim>\<open>json.load\<close> returns
  for it, or \<open>None\<close> when its content is not JSON. A path in neither table is a file that
  does not exist. (A file that exists and cannot be read raises another error, which the
  tables do not have.)
\<close>

text \<open>
  A JSON number carries its integer value; the functions below only ask whether a value
  is an object or a string.
\<close>

datatype json =
    JNull
  | JBool bool
  | JNumber int
  | JString string
  | JArray "json list"
  | JObject "(string \<times> json) list"

record files =
  text_files :: "(string \<times> string) list"
  json_files :: "(string \<times> json option) list"

definition read_file :: "files \<Rightarrow> string \<Rightarrow> error + string" where
  "read_file w file_path =
     (case map_of (text_files w) file_path of
        None \<Rightarrow> Inl FileNotFoundError
      | Some content \<Rightarrow> Inr content)"

definition json_load :: "files \<Rightarrow> string \<Rightarrow> error + json" where
  "json_load w file_path =
     (case map_of (json_files w) file_path of
        None \<Rightarrow> Inl FileNotFoundError
      | Some None \<Rightarrow> Inl JSONDecodeError
      | Some (Some content) \<Rightarrow> Inr content)"

text \<open>\<^verbatim>\<open>x.get(key, default)\<close> and \<^verbatim>\<open>x.items()\<close>: only a \<^verbatim>\<open>dict\<close> has them.\<close>

definition json_get :: "json \<Rightarrow> string \<Rightarrow> json \<Rightarrow> error + json" where
  "json_get x key dflt =
     (case x of
        JObject d \<Rightarrow> (case map_of d key of None \<Rightarrow> Inr dflt | Some v \<Rightarrow> Inr v)
      | _ \<Rightarrow> Inl AttributeError)"

definition json_items :: "json \<Rightarrow> error + (string \<times> json) list" where
  "json_items x = (case x of JObject d \<Rightarrow> Inr d | _ \<Rightarrow> Inl AttributeError)"

text \<open>\<^verbatim>\<open>package + v\<close> for a \<^verbatim>\<open>str\<close> on the left: the right operand has to be a \<^verbatim>\<open>str\<close> too.\<close>

definition str_add :: "string \<Rightarrow> json \<Rightarrow> error + string" where
  "str_add s x = (case x of JString t \<Rightarrow> Inr (s @ t) | _ \<Rightarrow> Inl TypeError)"

definition get_deps_from_pipfile :: "files \<Rightarrow> string \<Rightarrow> string \<Rightarrow> error + string list" where
  "get_deps_from_pipfile w section pipfile_path =
     then_do (json_load w pipfile_path) (\<lambda>pipfile_content.
     then_do (json_get pipfile_content section (JObject [])) (\<lambda>selected.
     then_do (json_items selected) (\<lambda>entries.
     map_result (\<lambda>(package, detail).
         then_do (json_get detail ''version'' (JString [])) (str_add package))
       entries)))"

definition get_deps_from_requirements :: "files \<Rightarrow> string \<Rightarrow> error + string list" where
  "get_deps_from_requirements w requirements_path =
     then_do (read_file w requirements_path) (\<lambda>content. Inr (splitlines content))"

definition get_deps :: "files \<Rightarrow> bool \<Rightarrow> error + string list" where
  "get_deps w use_pipfile =
     (if use_pipfile then get_deps_from_pipfile w ''default'' ''Pipfile.lock''
      else get_deps_from_requirements w ''requirements.txt'')"

text \<open>
  The version constraint a lock entry records, in the specification's words: the entry's
  \<open>version\<close> field, and the empty string when the entry has none.
\<close>

definition recorded_version :: "json \<Rightarrow> string" where
  "recorded_version detail =
     (case detail of
        JObject d \<Rightarrow> (case map_of d ''version'' of Some (JString s) \<Rightarrow> s | _ \<Rightarrow> [])
      | _ \<Rightarrow> [])"

definition requests_lock :: files where
  "requests_lock =
     \<lparr>text_files = [],
      json_files = [(''Pipfile.lock'',
        Some (JObject [(''default'',
          JObject [(''requests'', JObject [(''version'', JString ''==2.0'')])])]))]\<rparr>"

definition develop_only_lock :: files where
  "develop_only_lock =
     \<lparr>text_files = [],
      json_files = [(''Pipfile.lock'',
        Some (JObject [(''develop'',
          JObject [(''pytest'', JObject [(''version'', JString ''==7.0'')])])]))]\<rparr>"

section \<open>Packages and the module search path\<close>

text \<open>
  \<^verbatim>\<open>setuptools.find_namespace_packages\<close> is the packaging library's scan of a directory;
  the functions that call it take it as the parameter \<open>find_namespace_packages\<close>, from
  the scanned folder to the dotted names found.
\<close>

definition find_resources_packages ::
    "(string \<Rightarrow> string list) \<Rightarrow> string \<Rightarrow> string list \<Rightarrow> string list" where
  "find_resources_packages find_namespace_packages resources_folder excluded_packages =
     filter (\<lambda>pkg. pkg \<notin> set excluded_packages) (find_namespace_packages resources_folder)"

definition to_packages_dir :: "string \<Rightarrow> string list \<Rightarrow> string dict" where
  "to_packages_dir folder_path packages =
     dict_of_items
       (map (\<lambda>pkg. (pkg, as_posix (joinpath (Path folder_path) (str_replace ''.'' ''/'' pkg))))
          packages)"

text \<open>The first statements of the main block: the search path, then the packages.\<close>

definition configure_sys_path :: "string \<Rightarrow> string list \<Rightarrow> string list" where
  "configure_sys_path cwd sys_path =
     (let sys_path1 = sys_path @ [as_posix (absolute cwd (Path SRC_FOLDER))];
          sys_path2 = sys_path1 @ [as_posix (absolute cwd (Path RESOURCES_FOLDER))];
          sys_path3 = sys_path2 @ [as_posix (absolute cwd (Path TEST_SRC_FOLDER))];
          sys_path4 = sys_path3 @ [as_posix (absolute cwd (Path TEST_RESOURCES_FOLDER))]
      in sys_path4)"

record package_configuration =
  src_packages :: "string list"
  resources_packages :: "string list"
  src_packages_dir :: "string dict"
  resources_packages_dir :: "string dict"

definition configure_packages :: "(string \<Rightarrow> string list) \<Rightarrow> package_configuration" where
  "configure_packages find_namespace_packages =
     (let src = find_namespace_packages SRC_FOLDER;
          res = find_resources_packages find_namespace_packages RESOURCES_FOLDER src
      in \<lparr>src_packages = src,
          resources_packages = res,
          src_packages_dir = [('''', SRC_FOLDER)],
          resources_packages_dir = to_packages_dir RESOURCES_FOLDER res\<rparr>)"

text \<open>A scan that finds \<open>app\<close> under both roots and \<open>app.data\<close> and \<open>assets\<close> under the resources.\<close>

definition scan_example :: "string \<Rightarrow> string list" where
  "scan_example folder =
     (if folder = ''src/main/python'' then [''app'', ''app.core'']
      else if folder = ''src/main/resources'' then [''app'', ''app.data'', ''assets'']
      else [])"

section \<open>The configuration parser\<close>

text \<open>
  The state of a \<^verbatim>\<open>ConfigParser(interpolation=ExtendedInterpolation())\<close>: the options of
  the \<open>DEFAULT\<close> section and the other sections in order, with the raw values as stored.
  The parser has the library's settings: the default section is \<open>DEFAULT\<close>, option names
  are normalised by \<^verbatim>\<open>str.lower\<close>, and it is strict about duplicates.
\<close>

record config_parser =
  defaults :: "string dict"
  sections :: "(string dict) dict"

definition default_section :: string where
  "default_section = ''DEFAULT''"

definition MAX_INTERPOLATION_DEPTH :: nat where
  "MAX_INTERPOLATION_DEPTH = 10"

definition optionxform :: "string \<Rightarrow> string" where
  "optionxform optionstr = lower optionstr"

definition has_section :: "config_parser \<Rightarrow> string \<Rightarrow> bool" where
  "has_section p section = (map_of (sections p) section \<noteq> None)"

definition add_section :: "config_parser \<Rightarrow> string \<Rightarrow> error + config_parser" where
  "add_section p section =
     (if section = default_section then Inl ValueError
      else if has_section p section then Inl DuplicateSectionError
      else Inr (p\<lparr>sections := AList.update section [] (sections p)\<rparr>))"

text \<open>
  \<^verbatim>\<open>_unify_values\<close> gives the chain of lookups of a section: its own options first, then
  the defaults. It is the lookup function of that chain.
\<close>

definition unify_values :: "config_parser \<Rightarrow> string \<Rightarrow> error + (string \<Rightarrow> string option)" where
  "unify_values p section =
     (case map_of (sections p) section of
        Some sectiondict \<Rightarrow> Inr (map_of (defaults p) ++ map_of sectiondict)
      | None \<Rightarrow>
          if section \<noteq> default_section then Inl NoSectionError
          else Inr (map_of (defaults p) ++ Map.empty))"

text \<open>\<^verbatim>\<open>parser.get(section, option, raw=True)\<close>.\<close>

definition get_raw :: "config_parser \<Rightarrow> string \<Rightarrow> string \<Rightarrow> error + string" where
  "get_raw p section option =
     then_do (unify_values p section) (\<lambda>d.
       case d (optionxform option) of
         None \<Rightarrow> Inl NoOptionError
       | Some v \<Rightarrow> Inr v)"

text \<open>\<^verbatim>\<open>parser.items(section, raw=True)\<close>: the defaults, updated with the section's options.\<close>

definition items_raw :: "config_parser \<Rightarrow> string \<Rightarrow> error + string dict" where
  "items_raw p section =
     (case map_of (sections p) section of
        Some sectiondict \<Rightarrow> Inr (dict_update (defaults p) sectiondict)
      | None \<Rightarrow>
          if section \<noteq> default_section then Inl NoSectionError
          else Inr (defaults p))"

text \<open>
  The pattern \<^verbatim>\<open>\$\{([^}]+)\}\<close> matched at the start of a string: the name between the
  braces and the position after the closing brace.
\<close>

definition keycre_match :: "string \<Rightarrow> (string \<times> nat) option" where
  "keycre_match s =
     (if take 2 s = ''${''
      then (let name = takeWhile (\<lambda>c. c \<noteq> CHR ''}'') (drop 2 s)
            in if name \<noteq> [] \<and> length name + 2 < length s
               then Some (name, length name + 3) else None)
      else None)"

text \<open>\<^verbatim>\<open>_KEYCRE.sub('', s)\<close>: every match, found from the left, is removed.\<close>

function keycre_sub :: "string \<Rightarrow> string" where
  "keycre_sub [] = []"
| "keycre_sub (c # cs) =
     (case keycre_match (c # cs) of
        Some (name, m_end) \<Rightarrow> keycre_sub (drop m_end (c # cs))
      | None \<Rightarrow> c # keycre_sub cs)"
  by pat_completeness auto
termination
  by (relation "measure length") (auto simp: keycre_match_def Let_def split: if_splits)

text \<open>
  \<^verbatim>\<open>ExtendedInterpolation._interpolate_some\<close>. The library appends the pieces to the list
  \<open>accum\<close>, which \<^verbatim>\<open>before_get\<close> joins; here the call returns what it appends. The argument
  \<open>map\<close> is looked up only, so it is a lookup function.
\<close>

function interpolate_some ::
    "config_parser \<Rightarrow> string \<Rightarrow> string \<Rightarrow> string \<Rightarrow> (string \<Rightarrow> string option) \<Rightarrow> nat
      \<Rightarrow> error + string" where
  "interpolate_some parser option rest section map' depth =
     (if depth > MAX_INTERPOLATION_DEPTH then Inl InterpolationDepthError
      else if rest = [] then Inr []
      else if CHR ''$'' \<notin> set rest then Inr rest
      else
        (let literal = takeWhile (\<lambda>c. c \<noteq> CHR ''$'') rest;
             rest1 = dropWhile (\<lambda>c. c \<noteq> CHR ''$'') rest;
             c = take 1 (drop 1 rest1)
         in if c = ''$''
            then (case interpolate_some parser option (drop 2 rest1) section map' depth of
                    Inl e \<Rightarrow> Inl e
                  | Inr accum \<Rightarrow> Inr (literal @ ''$'' @ accum))
            else if c = ''{''
            then (case keycre_match rest1 of
                    None \<Rightarrow> Inl InterpolationSyntaxError
                  | Some (name, m_end) \<Rightarrow>
                      (let path = split_on CHR '':'' name;
                           rest2 = drop m_end rest1;
                           found =
                             (if length path = 1
                              then (case map' (optionxform (path ! 0)) of
                                      None \<Rightarrow> Inl InterpolationMissingOptionError
                                    | Some v \<Rightarrow> Inr (section, optionxform (path ! 0), v))
                              else if length path = 2
                              then (case get_raw parser (path ! 0) (optionxform (path ! 1)) of
                                      Inl e \<Rightarrow> Inl InterpolationMissingOptionError
                                    | Inr v \<Rightarrow> Inr (path ! 0, optionxform (path ! 1), v))
                              else Inl InterpolationSyntaxError)
                       in case found of
                            Inl e \<Rightarrow> Inl e
                          | Inr (sect, opt, v) \<Rightarrow>
                              (case (if CHR ''$'' \<in> set v
                                     then (case items_raw parser sect of
                                             Inl e \<Rightarrow> Inl e
                                           | Inr d \<Rightarrow>
                                               interpolate_some parser opt v sect (map_of d)
                                                 (depth + 1))
                                     else Inr v) of
                                 Inl e \<Rightarrow> Inl e
                               | Inr expansion \<Rightarrow>
                                   (case interpolate_some parser option rest2 section map' depth of
                                      Inl e \<Rightarrow> Inl e
                                    | Inr accum \<Rightarrow> Inr (literal @ expansion @ accum)))))
            else Inl InterpolationSyntaxError))"
  by pat_completeness auto
termination
proof (relation "measures
    [\<lambda>(parser, option, rest, section, map', depth). Suc MAX_INTERPOLATION_DEPTH - depth,
     \<lambda>(parser, option, rest, section, map', depth). length rest]", goal_cases)
  case 1
  then show ?case by simp
next
  case (2 parser opt rest sect mp depth literal rest1 c)
  then have "rest1 \<noteq> []" by (simp add: dropWhile_eq_Nil_conv)
  then have "0 < length rest1" by simp
  moreover have "length rest1 \<le> length rest"
    using 2 by (simp add: length_dropWhile_le)
  ultimately have "length rest1 - 2 < length rest" by linarith
  then show ?case by simp
next
  case 3
  then show ?case by auto
next
  case (4 parser opt rest sect mp depth literal rest1 c nm x y path rest2)
  then have "rest1 \<noteq> []" by (simp add: dropWhile_eq_Nil_conv)
  then have "0 < length rest1" by simp
  moreover have "length rest1 \<le> length rest"
    using 4 by (simp add: length_dropWhile_le)
  moreover have "0 < y"
    using 4 by (auto simp: keycre_match_def Let_def split: if_splits)
  ultimately have "length rest1 - y < length rest" by linarith
  then show ?case using \<open>rest2 = drop y rest1\<close> by simp
qed

declare interpolate_some.simps [simp del]

definition before_get ::
    "config_parser \<Rightarrow> string \<Rightarrow> string \<Rightarrow> string \<Rightarrow> (string \<Rightarrow> string option)
      \<Rightarrow> error + string" where
  "before_get parser section option v dflts = interpolate_some parser option v section dflts 1"

definition before_set :: "string \<Rightarrow> error + string" where
  "before_set v =
     (let tmp_value = keycre_sub (str_replace ''$$'' [] v)
      in if CHR ''$'' \<in> set tmp_value then Inl ValueError else Inr v)"

text \<open>\<^verbatim>\<open>parser.get(section, option)\<close>, with interpolation and without a fallback.\<close>

definition parser_get :: "config_parser \<Rightarrow> string \<Rightarrow> string \<Rightarrow> error + string" where
  "parser_get p section option =
     then_do (unify_values p section) (\<lambda>d.
       case d (optionxform option) of
         None \<Rightarrow> Inl NoOptionError
       | Some v \<Rightarrow> before_get p section (optionxform option) v d)"

text \<open>\<^verbatim>\<open>parser.items(section)\<close>, with interpolation.\<close>

definition parser_items :: "config_parser \<Rightarrow> string \<Rightarrow> error + string dict" where
  "parser_items p section =
     then_do (items_raw p section) (\<lambda>d.
       map_result (\<lambda>(option, v).
           then_do (before_get p section option v (map_of d)) (\<lambda>value. Inr (option, value)))
         d)"

definition options :: "config_parser \<Rightarrow> string \<Rightarrow> error + string list" where
  "options p section =
     (case map_of (sections p) section of
        None \<Rightarrow> Inl NoSectionError
      | Some sectiondict \<Rightarrow> Inr (map fst (dict_update sectiondict (defaults p))))"

definition has_option :: "config_parser \<Rightarrow> string \<Rightarrow> string \<Rightarrow> bool" where
  "has_option p section option =
     (if section = [] \<or> section = default_section
      then map_of (defaults p) (optionxform option) \<noteq> None
      else (case map_of (sections p) section of
              None \<Rightarrow> False
            | Some sectiondict \<Rightarrow>
                map_of sectiondict (optionxform option) \<noteq> None
                \<or> map_of (defaults p) (optionxform option) \<noteq> None))"

text \<open>
  \<^verbatim>\<open>dict(parser[name])\<close>: the section proxy lists the option names of the section and of
  the defaults, and reading one of them is an interpolated \<^verbatim>\<open>get\<close>.
\<close>

definition section_proxy_dict :: "config_parser \<Rightarrow> string \<Rightarrow> error + string dict" where
  "section_proxy_dict p name =
     (if name \<noteq> default_section \<and> \<not> has_section p name then Inl KeyError
      else
        then_do (if name \<noteq> default_section then options p name
                 else Inr (map fst (defaults p))) (\<lambda>keys.
        then_do (map_result (\<lambda>key.
                     if \<not> has_option p name key then Inl KeyError
                     else then_do (parser_get p name key) (\<lambda>value. Inr (key, value)))
                   keys) (\<lambda>items.
        Inr (dict_of_items items))))"

text \<open>\<^verbatim>\<open>parser.set(section, option, value)\<close>: the value's interpolation syntax is checked first.\<close>

definition parser_set :: "config_parser \<Rightarrow> string \<Rightarrow> string \<Rightarrow> string \<Rightarrow> error + config_parser" where
  "parser_set p section option v =
     then_do (if v \<noteq> [] then before_set v else Inr v) (\<lambda>value.
       if section = [] \<or> section = default_section
       then Inr (p\<lparr>defaults := AList.update (optionxform option) value (defaults p)\<rparr>)
       else (case map_of (sections p) section of
               None \<Rightarrow> Inl NoSectionError
             | Some sectdict \<Rightarrow>
                 Inr (p\<lparr>sections :=
                   AList.update section (AList.update (optionxform option) value sectdict)
                     (sections p)\<rparr>)))"

text \<open>
  \<^verbatim>\<open>parser.read_dict({section: keys})\<close>, as \<^verbatim>\<open>__setitem__\<close> calls it, with a dictionary
  of one section. \<open>elements_added\<close> holds the normalised option names stored so far; an
  exception of \<^verbatim>\<open>add_section\<close> is swallowed, the section being the first one read.
\<close>

fun read_dict_keys ::
    "config_parser \<Rightarrow> string \<Rightarrow> string dict \<Rightarrow> string list \<Rightarrow> error + config_parser" where
  "read_dict_keys p section [] elements_added = Inr p"
| "read_dict_keys p section ((k, v) # keys) elements_added =
     (let key = optionxform k
      in if key \<in> set elements_added then Inl DuplicateOptionError
         else then_do (parser_set p section key v) (\<lambda>p1.
                read_dict_keys p1 section keys (key # elements_added)))"

definition read_dict :: "config_parser \<Rightarrow> string \<Rightarrow> string dict \<Rightarrow> error + config_parser" where
  "read_dict p section keys =
     (let p1 = (case add_section p section of Inl e \<Rightarrow> p | Inr p' \<Rightarrow> p')
      in read_dict_keys p1 section keys [])"

text \<open>
  \<^verbatim>\<open>parser[key] = value\<close> for a fresh dictionary \<open>value\<close>: the section is emptied, then
  read from the dictionary.
\<close>

definition parser_setitem :: "config_parser \<Rightarrow> string \<Rightarrow> string dict \<Rightarrow> error + config_parser" where
  "parser_setitem p key v =
     (let p1 = (if key = default_section then p\<lparr>defaults := []\<rparr>
                else if has_section p key then p\<lparr>sections := AList.update key [] (sections p)\<rparr>
                else p)
      in read_dict p1 key v)"

text \<open>
  \<^verbatim>\<open>parser.read(path)\<close> on a new parser. The table \<open>ini_files\<close> gives, for each file that can
  be opened, what reading it produces: the parser's content, or the exception of a
  malformed file. A file that cannot be opened is skipped and leaves the parser empty.
\<close>

definition parser_read ::
    "(string \<times> (error + config_parser)) list \<Rightarrow> string \<Rightarrow> error + config_parser" where
  "parser_read ini_files file_path =
     (case map_of ini_files file_path of
        None \<Rightarrow> Inr \<lparr>defaults = [], sections = []\<rparr>
      | Some r \<Rightarrow> r)"

text \<open>
  The process environment \<open>os_environ\<close> is a dictionary; the function reads it once, into
  its local \<open>esc_env_vars\<close>.
\<close>

definition esc_env_vars :: "string dict \<Rightarrow> string dict" where
  "esc_env_vars os_environ =
     dict_of_items (map (\<lambda>(k, v). (k, str_replace ''$'' ''$$'' v)) os_environ)"

definition load_project_ini_file ::
    "(string \<times> (error + config_parser)) list \<Rightarrow> string dict \<Rightarrow> string \<Rightarrow> string
      \<Rightarrow> error + config_parser" where
  "load_project_ini_file ini_files os_environ project_ini_file_path environment_section =
     then_do (parser_read ini_files project_ini_file_path) (\<lambda>config_parser.
       if has_section config_parser environment_section
       then then_do (section_proxy_dict config_parser environment_section) (\<lambda>d.
              parser_setitem config_parser environment_section
                (dict_update d (esc_env_vars os_environ)))
       else parser_setitem config_parser environment_section (esc_env_vars os_environ))"

definition load_entry_points ::
    "config_parser \<Rightarrow> string \<Rightarrow> error + (string list) dict option" where
  "load_entry_points config_parser entry_point_section =
     (if \<not> has_section config_parser entry_point_section then Inr None
      else then_do (parser_items config_parser entry_point_section) (\<lambda>items.
             Inr (Some (dict_of_items (map (\<lambda>(k, v). (k, splitlines v)) items)))))"

text \<open>
  A project file with a default for \<open>home\<close> in its \<open>ENV\<close> section and one console script,
  written in the usual way on the line after the key.
\<close>

definition project_ini :: config_parser where
  "project_ini =
     \<lparr>defaults = [],
      sections =
        [(''PROJECT'', [(''name'', ''demo''), (''url'', ''${ENV:home}/demo'')]),
         (''ENV'', [(''home'', ''/from/file'')]),
         (''PROJECT.ENTRY_POINTS'', [(''console_scripts'', CHR 0x0A # ''run = app.main:main'')])]\<rparr>"

definition process_env :: "string dict" where
  "process_env = [(''home'', ''/from/env''), (''price'', ''5$'')]"

section \<open>The clean command\<close>

text \<open>
  The part of the file system the command touches is a finite table of entries. A path is
  the list of its components below the working directory (\<^verbatim>\<open>Path('./build')\<close> is
  \<open>[''build'']\<close>), and everything below a directory has that directory's path as a prefix.
  An entry is a file, a directory, or a symbolic link with the path it points to; what
  lies behind a link is listed under the path of the link's target only.
\<close>

type_synonym path = "string list"

datatype kind = File | Dir | Link path

type_synonym filesystem = "(path \<times> kind) list"

definition is_symlink :: "filesystem \<Rightarrow> path \<Rightarrow> bool" where
  "is_symlink fs p = list_ex (\<lambda>(q, k). q = p \<and> (case k of Link t \<Rightarrow> True | _ \<Rightarrow> False)) fs"

text \<open>
  \<^verbatim>\<open>Path.is_dir\<close> follows symbolic links: a link to a directory is a directory, a link
  to anything else, to nothing, or a chain of more than \<open>MAXSYMLINKS\<close> links is not.
\<close>

definition MAXSYMLINKS :: nat where
  "MAXSYMLINKS = 40"

fun resolves_to_dir :: "filesystem \<Rightarrow> nat \<Rightarrow> path \<Rightarrow> bool" where
  "resolves_to_dir fs 0 p = ((p, Dir) \<in> set fs)"
| "resolves_to_dir fs (Suc n) p =
     ((p, Dir) \<in> set fs
      \<or> list_ex (\<lambda>(q, k). q = p \<and> (case k of Link t \<Rightarrow> resolves_to_dir fs n t | _ \<Rightarrow> False))
           fs)"

definition is_dir :: "filesystem \<Rightarrow> path \<Rightarrow> bool" where
  "is_dir fs p = resolves_to_dir fs MAXSYMLINKS p"

text \<open>
  \<^verbatim>\<open>shutil.rmtree\<close> removes a directory with all it holds, the links below it as links.
  It raises on a path that is missing, that is a symbolic link, or that is not a
  directory.
\<close>

definition rmtree :: "path \<Rightarrow> filesystem \<Rightarrow> error + filesystem" where
  "rmtree p fs =
     (if p \<notin> fst ` set fs then Inl FileNotFoundError
      else if is_symlink fs p then Inl OSError
      else if (p, Dir) \<in> set fs then Inr (filter (\<lambda>(q, k). \<not> prefix p q) fs)
      else Inl NotADirectoryError)"

text \<open>
  Shell-style matching of one file name: \<open>*\<close> stands for any run of characters, \<open>?\<close> for
  one character. (Bracket classes are not modelled; the pattern of this program has none.)
\<close>

fun fnmatch :: "string \<Rightarrow> string \<Rightarrow> bool" where
  "fnmatch [] [] = True"
| "fnmatch (c # cs) [] = False"
| "fnmatch [] (p # ps) = (p = CHR ''*'' \<and> fnmatch [] ps)"
| "fnmatch (c # cs) (p # ps) =
     (if p = CHR ''*'' then fnmatch (c # cs) ps \<or> fnmatch cs (p # ps)
      else (p = CHR ''?'' \<or> p = c) \<and> fnmatch cs ps)"

text \<open>
  \<^verbatim>\<open>Path(".").rglob(pattern)\<close>: every entry below the working directory whose own name
  matches, a symbolic link included; the walk does not go through links. The entries are
  listed once, before the loop body runs.
\<close>

definition rglob :: "filesystem \<Rightarrow> string \<Rightarrow> path list" where
  "rglob fs pattern = map fst (filter (\<lambda>(q, k). q \<noteq> [] \<and> fnmatch (last q) pattern) fs)"

definition path_str :: "path \<Rightarrow> string" where
  "path_str p = (if p = [] then ''.'' else join_with ''/'' p)"

definition BUILD_PATH :: path where
  "BUILD_PATH = [''build'']"

definition DIST_PATH :: path where
  "DIST_PATH = [''dist'']"

definition EGG_INFO_PATTERN :: string where
  "EGG_INFO_PATTERN = ''*.egg-info''"

record CleanCommand =
  build :: bool
  dist :: bool
  egg_info :: bool
  all :: bool

text \<open>The state a run works on: the file system and the lines printed so far.\<close>

type_synonym clean_state = "filesystem \<times> string list"

definition print_line :: "string \<Rightarrow> clean_state \<Rightarrow> clean_state" where
  "print_line msg st = (fst st, snd st @ [msg])"

definition clean_initialize_options :: CleanCommand where
  "clean_initialize_options = \<lparr>build = False, dist = False, egg_info = False, all = False\<rparr>"

definition clean_finalize_options :: "CleanCommand \<Rightarrow> CleanCommand" where
  "clean_finalize_options self =
     (let self1 = (if \<not> (build self \<or> dist self \<or> egg_info self \<or> all self)
                   then self\<lparr>all := True\<rparr> else self)
      in if all self1 then self1\<lparr>build := True, dist := True, egg_info := True\<rparr> else self1)"

definition rmdir_if_exists :: "path \<Rightarrow> clean_state \<Rightarrow> error + clean_state" where
  "rmdir_if_exists dir_path st =
     (if is_dir (fst st) dir_path
      then (let st1 = print_line ('' |- Remove '' @ path_str dir_path @ '' directory'') st
            in then_do (rmtree dir_path (fst st1)) (\<lambda>fs. Inr (fs, snd st1)))
      else Inr st)"

definition clean_run :: "CleanCommand \<Rightarrow> clean_state \<Rightarrow> error + clean_state" where
  "clean_run self st0 =
     (let st1 = print_line ''Running clean command...'' st0 in
      then_do (if build self then rmdir_if_exists BUILD_PATH st1 else Inr st1) (\<lambda>st2.
      then_do (if dist self then rmdir_if_exists DIST_PATH st2 else Inr st2) (\<lambda>st3.
      then_do (if egg_info self
               then for_each rmdir_if_exists (rglob (fst st3) EGG_INFO_PATTERN) st3
               else Inr st3) (\<lambda>st4.
      Inr (print_line ''Clean command done'' st4)))))"

text \<open>
  A small project tree after a build, used to run the command on; and the same tree
  whose \<open>build\<close> is a symbolic link to a directory kept elsewhere.
\<close>

definition built_tree :: filesystem where
  "built_tree =
     [([''build''], Dir), ([''build'', ''lib''], Dir), ([''src''], Dir),
      ([''src'', ''demo.egg-info''], Dir),
      ([''src'', ''demo.egg-info'', ''PKG-INFO''], File),
      ([''notes.egg-info''], File)]"

text \<open>A tree without symbolic links.\<close>

definition link_free :: "filesystem \<Rightarrow> bool" where
  "link_free fs = list_all (\<lambda>(q, k). case k of Link t \<Rightarrow> False | _ \<Rightarrow> True) fs"

definition linked_tree :: filesystem where
  "linked_tree =
     [([''out''], Dir), ([''out'', ''lib''], Dir), ([''build''], Link [''out'']),
      ([''src''], Dir), ([''src'', ''demo.egg-info''], Dir)]"

section \<open>The test command\<close>

text \<open>
  A test is a test case, known by its name, or a nested suite. A \<^verbatim>\<open>TestSuite\<close> object
  is the list of the tests it holds, which is what iterating it gives.
\<close>

datatype test = TestCase string | TestSuite "test list"

fun count_cases :: "test \<Rightarrow> nat" where
  "count_cases (TestCase name) = 1"
| "count_cases (TestSuite tests) = sum_list (map count_cases tests)"

definition countTestCases :: "test list \<Rightarrow> nat" where
  "countTestCases suite = sum_list (map count_cases suite)"

definition addTests :: "test list \<Rightarrow> test list \<Rightarrow> test list" where
  "addTests suite tests = suite @ tests"



text \<open>
  What the command finds around it: the packaging library's scan of a folder, the file
  test of the file system, the discovery of \<^verbatim>\<open>unittest\<close>'s default loader (start
  directory, top-level directory, pattern), the interpreter's version string, and for
  each test case whether it passes when run. The discovery is taken as returning a suite
  for every directory: a discovery that raises, as it does for a start directory that
  does not exist, is outside this model.
\<close>

record test_env =
  namespace_packages :: "string \<Rightarrow> string list"
  is_file :: "string \<Rightarrow> bool"
  discover :: "string \<Rightarrow> string \<Rightarrow> string \<Rightarrow> test list"
  py_version :: string
  passes :: "string \<Rightarrow> bool"

text \<open>
  \<^verbatim>\<open>int(s)\<close> for a string: white space around the number (the characters 9 to 13, the
  space, 0x85 and 0xA0), an optional sign, and decimal digits that single underscores may
  separate.
\<close>

definition is_space :: "char \<Rightarrow> bool" where
  "is_space c =
     (let n = (of_char c :: nat)
      in (9 \<le> n \<and> n \<le> 13) \<or> n = 32 \<or> n = 133 \<or> n = 160)"

definition is_digit :: "char \<Rightarrow> bool" where
  "is_digit c = (48 \<le> (of_char c :: nat) \<and> (of_char c :: nat) \<le> 57)"

fun parse_digits :: "bool \<Rightarrow> nat \<Rightarrow> string \<Rightarrow> nat option" where
  "parse_digits after_digit acc [] = (if after_digit then Some acc else None)"
| "parse_digits after_digit acc (c # cs) =
     (if is_digit c then parse_digits True (10 * acc + (of_char c - 48)) cs
      else if c = CHR ''_'' \<and> after_digit then parse_digits False acc cs
      else None)"

definition py_int :: "string \<Rightarrow> error + int" where
  "py_int s =
     (let t = rev (dropWhile is_space (rev (dropWhile is_space s)));
          negative = (take 1 t = ''-'');
          digits = (if take 1 t = ''-'' \<or> take 1 t = ''+'' then drop 1 t else t)
      in case parse_digits False 0 digits of
           None \<Rightarrow> Inl ValueError
         | Some n \<Rightarrow> Inr (if negative then - int n else int n))"

record TestCommand =
  test_src_folder :: posix_path
  test_file_pattern :: string


text \<open>\<^verbatim>\<open>_discover(pkg_path)\<close>; a path object is never false, so \<^verbatim>\<open>or\<close> picks it when given.\<close>

definition discover_tests :: "test_env \<Rightarrow> TestCommand \<Rightarrow> posix_path option \<Rightarrow> test list" where
  "discover_tests env self pkg_path =
     (let test_dir = as_posix (case pkg_path of None \<Rightarrow> test_src_folder self | Some p \<Rightarrow> p)
      in discover env test_dir test_dir (test_file_pattern self))"

text \<open>The warning returns the lines it prints on the standard error stream.\<close>

definition version_warning_message :: "string \<Rightarrow> string" where
  "version_warning_message namespace_package =
     ''WARNING: Your python version is >= 3.11. So your tests in your namespace package''
     @ '' '' @ [CHR 0x27] @ namespace_package @ [CHR 0x27]
     @ '' will probably run twice'' @ [CHR 0x0A]
     @ ''   This is due to an issue that should be fixed in python 3.11.''
     @ '' In this case it means issue https://bugs.python.org/issue23882 is fixed''
     @ '' and you can remove the _add_namespace_pkg_tests_workaround method from''
     @ '' TestCommand class in setup.py file''"

definition namespace_pkg_workaround_version_warning :: "string \<Rightarrow> string \<Rightarrow> error + string list" where
  "namespace_pkg_workaround_version_warning version_string namespace_package =
     (let version = split_on CHR ''.'' version_string
      in if version \<noteq> []
         then then_do (py_int (version ! 0)) (\<lambda>major.
              then_do (if length version > 1 then py_int (version ! 1) else Inr 0) (\<lambda>minor.
                if major > 3 \<or> (major = 3 \<and> minor \<ge> 11)
                then Inr [version_warning_message namespace_package]
                else Inr []))
         else Inr [])"

definition pkg_path_of :: "TestCommand \<Rightarrow> string \<Rightarrow> posix_path" where
  "pkg_path_of self pkg = joinpath (test_src_folder self) (str_replace ''.'' ''/'' pkg)"

text \<open>The state of the loop: the default suite, which grows, and the standard error stream.\<close>

definition add_namespace_pkg_tests_workaround ::
    "test_env \<Rightarrow> TestCommand \<Rightarrow> test list \<times> string list \<Rightarrow> error + test list \<times> string list" where
  "add_namespace_pkg_tests_workaround env self st =
     for_each (\<lambda>pkg (default_test_suite, stderr).
         (let pkg_path = pkg_path_of self pkg
          in if \<not> is_file env (as_posix (joinpath pkg_path ''__init__.py''))
             then then_do (namespace_pkg_workaround_version_warning (py_version env) pkg)
                    (\<lambda>warning.
                      let namespace_suite = discover_tests env self (Some pkg_path)
                      in if countTestCases namespace_suite > 0
                         then Inr (addTests default_test_suite namespace_suite, stderr @ warning)
                         else Inr (default_test_suite, stderr @ warning))
             else Inr (default_test_suite, stderr)))
       (namespace_packages env (as_posix (test_src_folder self))) st"





section \<open>Sequencing\<close>

lemma then_do_Inr [simp]: "then_do (Inr x) f = f x"
  by (simp add: then_do_def)

lemma then_do_Inl [simp]: "then_do (Inl e) f = Inl e"
  by (simp add: then_do_def)

section \<open>Properties of the clean command\<close>

lemma list_ex_link:
  "list_ex (\<lambda>(q, k). q = p \<and> (case k of Link t \<Rightarrow> R t | _ \<Rightarrow> False)) fs
     \<longleftrightarrow> (\<exists>t. (p, Link t) \<in> set fs \<and> R t)"
proof
  assume "list_ex (\<lambda>(q, k). q = p \<and> (case k of Link t \<Rightarrow> R t | _ \<Rightarrow> False)) fs"
  then obtain k where k: "(p, k) \<in> set fs" "case k of Link t \<Rightarrow> R t | _ \<Rightarrow> False"
    by (auto simp: list_ex_iff)
  then show "\<exists>t. (p, Link t) \<in> set fs \<and> R t" by (cases k) auto
next
  assume "\<exists>t. (p, Link t) \<in> set fs \<and> R t"
  then show "list_ex (\<lambda>(q, k). q = p \<and> (case k of Link t \<Rightarrow> R t | _ \<Rightarrow> False)) fs"
    by (force simp: list_ex_iff)
qed

lemma resolves_to_dir_Suc:
  "resolves_to_dir fs (Suc n) p
     \<longleftrightarrow> (p, Dir) \<in> set fs \<or> (\<exists>t. (p, Link t) \<in> set fs \<and> resolves_to_dir fs n t)"
  by (simp add: list_ex_link)

lemma resolves_to_dir_mono:
  "set fs' \<subseteq> set fs \<Longrightarrow> resolves_to_dir fs' n p \<Longrightarrow> resolves_to_dir fs n p"
proof (induction n arbitrary: p)
  case 0
  then show ?case by auto
next
  case (Suc n)
  then show ?case unfolding resolves_to_dir_Suc by blast
qed

lemma is_dir_mono: "set fs' \<subseteq> set fs \<Longrightarrow> is_dir fs' p \<Longrightarrow> is_dir fs p"
  unfolding is_dir_def by (rule resolves_to_dir_mono)

lemma resolves_to_dir_entry: "resolves_to_dir fs n p \<Longrightarrow> p \<in> fst ` set fs"
  by (cases n) (force simp: list_ex_link)+

lemma rmtree_Inr:
  "rmtree p fs = Inr fs' \<Longrightarrow> fs' = filter (\<lambda>(q, k). \<not> prefix p q) fs"
  by (simp add: rmtree_def split: if_splits)

text \<open>A removal that returns has only removed entries, and its path is no directory then.\<close>

lemma rmdir_if_exists_returns:
  assumes "rmdir_if_exists p st = Inr st'"
  shows "set (fst st') \<subseteq> set (fst st)" and "\<not> is_dir (fst st') p"
proof -
  have "set (fst st') \<subseteq> set (fst st) \<and> \<not> is_dir (fst st') p"
  proof (cases "is_dir (fst st) p")
    case True
    with assms obtain fs' where r: "rmtree p (fst st) = Inr fs'" and st': "fst st' = fs'"
      by (cases "rmtree p (fst st)")
        (auto simp: rmdir_if_exists_def print_line_def Let_def)
    have fs': "fs' = filter (\<lambda>(q, k). \<not> prefix p q) (fst st)" using r by (rule rmtree_Inr)
    then have "p \<notin> fst ` set fs'" by auto
    then have "\<not> is_dir fs' p" unfolding is_dir_def using resolves_to_dir_entry by blast
    then show ?thesis using fs' st' by auto
  next
    case False
    with assms have "st' = st" by (simp add: rmdir_if_exists_def)
    then show ?thesis using False by simp
  qed
  then show "set (fst st') \<subseteq> set (fst st)" and "\<not> is_dir (fst st') p" by simp_all
qed

lemma rmdir_if_exists_noop: "\<not> is_dir (fst st) p \<Longrightarrow> rmdir_if_exists p st = Inr st"
  by (simp add: rmdir_if_exists_def)

lemma then_do_Inr_iff: "then_do r f = Inr y \<longleftrightarrow> (\<exists>x. r = Inr x \<and> f x = Inr y)"
  by (cases r) simp_all

text \<open>
  A loop over the matches that returns has only removed entries, and leaves none of the
  listed paths a directory.
\<close>

lemma for_each_rmdir_returns:
  "for_each rmdir_if_exists ps st = Inr st'
   \<Longrightarrow> set (fst st') \<subseteq> set (fst st) \<and> (\<forall>p \<in> set ps. \<not> is_dir (fst st') p)"
proof (induction ps arbitrary: st)
  case Nil
  then show ?case by simp
next
  case (Cons p ps)
  from Cons.prems obtain st1 where s1: "rmdir_if_exists p st = Inr st1"
    and rest: "for_each rmdir_if_exists ps st1 = Inr st'"
    by (auto simp: then_do_Inr_iff)
  have a: "set (fst st1) \<subseteq> set (fst st)" and b: "\<not> is_dir (fst st1) p"
    using rmdir_if_exists_returns [OF s1] by simp_all
  from Cons.IH [OF rest] have c: "set (fst st') \<subseteq> set (fst st1)"
    and d: "\<forall>p \<in> set ps. \<not> is_dir (fst st') p" by simp_all
  have "\<not> is_dir (fst st') p" using b c is_dir_mono by blast
  then show ?case using a c d by auto
qed

lemma for_each_rmdir_noop:
  "\<forall>p \<in> set ps. \<not> is_dir (fst st) p \<Longrightarrow> for_each rmdir_if_exists ps st = Inr st"
  by (induction ps) (simp_all add: rmdir_if_exists_noop)

lemma rglob_mono: "set fs' \<subseteq> set fs \<Longrightarrow> set (rglob fs' pat) \<subseteq> set (rglob fs pat)"
  by (auto simp: rglob_def)

text \<open>After a run that returns, no target is a directory, and the next run removes nothing.\<close>

lemma clean_run_twice:
  assumes "clean_run self st = Inr st5"
  shows "build self \<longrightarrow> \<not> is_dir (fst st5) BUILD_PATH"
    and "dist self \<longrightarrow> \<not> is_dir (fst st5) DIST_PATH"
    and "egg_info self \<longrightarrow> (\<forall>p \<in> set (rglob (fst st5) EGG_INFO_PATTERN). \<not> is_dir (fst st5) p)"
    and "clean_run self st5
          = Inr (fst st5, snd st5 @ [''Running clean command...'', ''Clean command done''])"
proof -
  let ?pat = EGG_INFO_PATTERN
  define st1 where "st1 = print_line ''Running clean command...'' st"
  from assms obtain st2 st3 st4 where
    s2: "(if build self then rmdir_if_exists BUILD_PATH st1 else Inr st1) = Inr st2"
    and s3: "(if dist self then rmdir_if_exists DIST_PATH st2 else Inr st2) = Inr st3"
    and s4: "(if egg_info self
               then for_each rmdir_if_exists (rglob (fst st3) ?pat) st3
               else Inr st3) = Inr st4"
    and st5: "st5 = print_line ''Clean command done'' st4"
    unfolding clean_run_def Let_def st1_def [symmetric] then_do_Inr_iff by auto
  have m2: "set (fst st2) \<subseteq> set (fst st1)"
    and d2: "build self \<longrightarrow> \<not> is_dir (fst st2) BUILD_PATH"
    using s2 rmdir_if_exists_returns [of BUILD_PATH st1 st2] by (auto split: if_splits)
  have m3: "set (fst st3) \<subseteq> set (fst st2)"
    and d3: "dist self \<longrightarrow> \<not> is_dir (fst st3) DIST_PATH"
    using s3 rmdir_if_exists_returns [of DIST_PATH st2 st3] by (auto split: if_splits)
  have m4: "set (fst st4) \<subseteq> set (fst st3)"
    and d4: "egg_info self \<longrightarrow> (\<forall>p \<in> set (rglob (fst st3) ?pat). \<not> is_dir (fst st4) p)"
    using s4 for_each_rmdir_returns [of "rglob (fst st3) ?pat" st3 st4]
    by (auto split: if_splits)
  have fs5: "fst st5 = fst st4" by (simp add: st5 print_line_def)
  show b: "build self \<longrightarrow> \<not> is_dir (fst st5) BUILD_PATH"
    using d2 m3 m4 is_dir_mono fs5 by (metis subset_trans)
  show d: "dist self \<longrightarrow> \<not> is_dir (fst st5) DIST_PATH"
    using d3 m4 is_dir_mono fs5 by metis
  show e: "egg_info self \<longrightarrow> (\<forall>p \<in> set (rglob (fst st5) ?pat). \<not> is_dir (fst st5) p)"
    using d4 rglob_mono [OF m4, of ?pat] fs5 by auto
  define t1 where "t1 = print_line ''Running clean command...'' st5"
  have ft1: "fst t1 = fst st5" by (simp add: t1_def print_line_def)
  have t2: "(if build self then rmdir_if_exists BUILD_PATH t1 else Inr t1) = Inr t1"
    using b ft1 by (simp add: rmdir_if_exists_noop)
  have t3: "(if dist self then rmdir_if_exists DIST_PATH t1 else Inr t1) = Inr t1"
    using d ft1 by (simp add: rmdir_if_exists_noop)
  have t4: "(if egg_info self
               then for_each rmdir_if_exists (rglob (fst t1) ?pat) t1
               else Inr t1) = Inr t1"
    using e ft1 by (simp add: for_each_rmdir_noop)
  have "clean_run self st5 = Inr (print_line ''Clean command done'' t1)"
    unfolding clean_run_def Let_def t1_def [symmetric] t2 then_do_def
    by (simp add: t3 t4 split del: if_split)
  also have "print_line ''Clean command done'' t1
      = (fst st5, snd st5 @ [''Running clean command...'', ''Clean command done''])"
    by (simp add: t1_def print_line_def)
  finally show "clean_run self st5
      = Inr (fst st5, snd st5 @ [''Running clean command...'', ''Clean command done''])" .
qed

text \<open>On a tree without symbolic links a run always returns.\<close>

lemma link_free_no_link: "link_free fs \<Longrightarrow> (p, Link t) \<notin> set fs"
  by (auto simp: link_free_def list_all_iff)

lemma link_free_resolves:
  "link_free fs \<Longrightarrow> resolves_to_dir fs n p = ((p, Dir) \<in> set fs)"
  by (cases n) (auto simp: list_ex_link link_free_no_link)

lemma link_free_filter: "link_free fs \<Longrightarrow> link_free (filter P fs)"
  by (simp add: link_free_def list_all_iff)

lemma rmdir_if_exists_link_free:
  assumes "link_free (fst st)"
  shows "\<exists>st'. rmdir_if_exists p st = Inr st' \<and> link_free (fst st')"
proof (cases "is_dir (fst st) p")
  case True
  then have d: "(p, Dir) \<in> set (fst st)"
    using assms by (simp add: is_dir_def link_free_resolves)
  then have "p \<in> fst ` set (fst st)" by force
  moreover have "\<not> is_symlink (fst st) p"
    using assms list_ex_link [of p "\<lambda>t. True" "fst st"]
    by (simp add: is_symlink_def link_free_no_link)
  ultimately have "rmtree p (fst st) = Inr (filter (\<lambda>(q, k). \<not> prefix p q) (fst st))"
    using d by (simp add: rmtree_def)
  then show ?thesis
    using True assms by (simp add: rmdir_if_exists_def print_line_def Let_def link_free_filter)
next
  case False
  then show ?thesis using assms by (simp add: rmdir_if_exists_def)
qed

lemma for_each_rmdir_link_free:
  "link_free (fst st) \<Longrightarrow> \<exists>st'. for_each rmdir_if_exists ps st = Inr st' \<and> link_free (fst st')"
proof (induction ps arbitrary: st)
  case Nil
  then show ?case by simp
next
  case (Cons p ps)
  from rmdir_if_exists_link_free [OF Cons.prems, of p] obtain st1 where
    "rmdir_if_exists p st = Inr st1" "link_free (fst st1)" by blast
  then show ?case using Cons.IH [of st1] by auto
qed

lemma clean_run_link_free:
  assumes "link_free (fst st)"
  shows "\<exists>st1. clean_run self st = Inr st1"
proof -
  define st1 where "st1 = print_line ''Running clean command...'' st"
  have l1: "link_free (fst st1)" using assms by (simp add: st1_def print_line_def)
  obtain st2 where s2: "(if build self then rmdir_if_exists BUILD_PATH st1 else Inr st1) = Inr st2"
    and l2: "link_free (fst st2)"
    using rmdir_if_exists_link_free [OF l1, of BUILD_PATH] l1 by (cases "build self") auto
  obtain st3 where s3: "(if dist self then rmdir_if_exists DIST_PATH st2 else Inr st2) = Inr st3"
    and l3: "link_free (fst st3)"
    using rmdir_if_exists_link_free [OF l2, of DIST_PATH] l2 by (cases "dist self") auto
  obtain st4 where s4: "(if egg_info self
               then for_each rmdir_if_exists (rglob (fst st3) EGG_INFO_PATTERN) st3
               else Inr st3) = Inr st4"
    using for_each_rmdir_link_free [OF l3, of "rglob (fst st3) EGG_INFO_PATTERN"]
    by (cases "egg_info self") auto
  have "clean_run self st = Inr (print_line ''Clean command done'' st4)"
    unfolding clean_run_def Let_def st1_def [symmetric] s2 then_do_def
    by (simp add: s3 s4 split del: if_split)
  then show ?thesis by blast
qed

lemma clean_run_built_tree:
  "clean_run (clean_finalize_options clean_initialize_options) (built_tree, [])
   = Inr ([([''src''], Dir), ([''notes.egg-info''], File)],
       [''Running clean command...'', '' |- Remove build directory'',
        '' |- Remove src/demo.egg-info directory'', ''Clean command done''])"
  by code_simp

text \<open>
  C8. The clean command with no flag set is the clean command with \<open>all\<close> set: option
  finalisation gives the same command in both cases, with the removal of the build
  directory, of the dist directory and of the egg-info directories all enabled, and the
  two runs do the same on every file system.
\<close>

theorem clean_default_is_all:
  "clean_finalize_options clean_initialize_options
     = clean_finalize_options (clean_initialize_options\<lparr>all := True\<rparr>)
   \<and> build (clean_finalize_options clean_initialize_options)
   \<and> dist (clean_finalize_options clean_initialize_options)
   \<and> egg_info (clean_finalize_options clean_initialize_options)
   \<and> clean_run (clean_finalize_options clean_initialize_options) st
       = clean_run (clean_finalize_options (clean_initialize_options\<lparr>all := True\<rparr>)) st"
  by (simp add: clean_finalize_options_def clean_initialize_options_def)

theorem clean_default_is_all_witness:
  "clean_run (clean_finalize_options (clean_initialize_options\<lparr>all := True\<rparr>)) (built_tree, [])
   = Inr ([([''src''], Dir), ([''notes.egg-info''], File)],
       [''Running clean command...'', '' |- Remove build directory'',
        '' |- Remove src/demo.egg-info directory'', ''Clean command done''])"
  using clean_default_is_all [of "(built_tree, [])"] clean_run_built_tree by simp

text \<open>
  C9. The clean command is idempotent. Removing a path that is not an existing directory
  changes nothing, prints nothing and raises nothing. On a tree without symbolic links a
  run always returns. And after a run that returns, no target is a directory any more,
  so the run that follows leaves the file system as it is, prints only its opening and
  closing lines and returns: it has nothing to remove and reports no error. (Of two runs
  in succession the first has returned; a run raises when a target is a symbolic link to
  a directory, as \<open>clean_run_linked_tree\<close> shows.)
\<close>

theorem clean_idempotent:
  "(\<not> is_dir (fst st) p \<longrightarrow> rmdir_if_exists p st = Inr st)
   \<and> (link_free (fst st) \<longrightarrow> (\<exists>st1. clean_run self st = Inr st1))
   \<and> (clean_run self st = Inr st1 \<longrightarrow>
         (build self \<longrightarrow> \<not> is_dir (fst st1) BUILD_PATH)
       \<and> (dist self \<longrightarrow> \<not> is_dir (fst st1) DIST_PATH)
       \<and> (egg_info self \<longrightarrow>
            (\<forall>p \<in> set (rglob (fst st1) EGG_INFO_PATTERN). \<not> is_dir (fst st1) p))
       \<and> clean_run self st1
            = Inr (fst st1, snd st1 @ [''Running clean command...'', ''Clean command done'']))"
  using rmdir_if_exists_noop [of st p] clean_run_link_free [of st self]
    clean_run_twice [of self st st1]
  by blast

theorem clean_idempotent_witness:
  "\<not> is_dir built_tree [''dist'']
   \<and> rmdir_if_exists [''dist''] (built_tree, []) = Inr (built_tree, [])
   \<and> link_free built_tree
   \<and> clean_run (clean_finalize_options clean_initialize_options) (built_tree, [])
      = Inr ([([''src''], Dir), ([''notes.egg-info''], File)],
         [''Running clean command...'', '' |- Remove build directory'',
          '' |- Remove src/demo.egg-info directory'', ''Clean command done''])
   \<and> \<not> is_dir [([''src''], Dir), ([''notes.egg-info''], File)] BUILD_PATH
   \<and> \<not> is_dir [([''src''], Dir), ([''notes.egg-info''], File)] DIST_PATH
   \<and> clean_run (clean_finalize_options clean_initialize_options)
        ([([''src''], Dir), ([''notes.egg-info''], File)],
         [''Running clean command...'', '' |- Remove build directory'',
          '' |- Remove src/demo.egg-info directory'', ''Clean command done''])
      = Inr ([([''src''], Dir), ([''notes.egg-info''], File)],
         [''Running clean command...'', '' |- Remove build directory'',
          '' |- Remove src/demo.egg-info directory'', ''Clean command done'',
          ''Running clean command...'', ''Clean command done''])"
proof -
  have nd: "\<not> is_dir built_tree [''dist'']" by code_simp
  have lf: "link_free built_tree" by code_simp
  have fl: "build (clean_finalize_options clean_initialize_options)
      \<and> dist (clean_finalize_options clean_initialize_options)"
    by (simp add: clean_finalize_options_def clean_initialize_options_def)
  from clean_idempotent [of "(built_tree, [])" "[''dist'']"
      "clean_finalize_options clean_initialize_options"
      "([([''src''], Dir), ([''notes.egg-info''], File)],
         [''Running clean command...'', '' |- Remove build directory'',
          '' |- Remove src/demo.egg-info directory'', ''Clean command done''])"]
  show ?thesis using nd lf fl clean_run_built_tree by simp
qed

text \<open>
  A target that is a symbolic link to a directory passes the test of \<^verbatim>\<open>is_dir\<close> and
  is refused by \<^verbatim>\<open>rmtree\<close>: the run raises, before it removes anything.
\<close>

lemma clean_run_linked_tree:
  "is_dir linked_tree BUILD_PATH
   \<and> clean_run (clean_finalize_options clean_initialize_options) (linked_tree, []) = Inl OSError"
  by code_simp

section \<open>Properties of the dependency lister\<close>

lemma map_result_versions:
  "\<forall>(package, detail) \<in> set entries. \<exists>d. detail = JObject d
       \<and> (map_of d ''version'' = None \<or> (\<exists>s. map_of d ''version'' = Some (JString s)))
   \<Longrightarrow> map_result (\<lambda>(package, detail).
         then_do (json_get detail ''version'' (JString [])) (str_add package)) entries
       = Inr (map (\<lambda>(package, detail). package @ recorded_version detail) entries)"
proof (induction entries)
  case Nil
  then show ?case by simp
next
  case (Cons e entries)
  obtain package detail where e: "e = (package, detail)" by (cases e)
  from Cons.prems e obtain d where d: "detail = JObject d"
    "map_of d ''version'' = None \<or> (\<exists>s. map_of d ''version'' = Some (JString s))"
    by auto
  have one: "then_do (json_get detail ''version'' (JString [])) (str_add package)
      = Inr (package @ recorded_version detail)"
    using d by (auto simp: then_do_def json_get_def str_add_def recorded_version_def)
  have rest: "map_result (\<lambda>(package, detail).
         then_do (json_get detail ''version'' (JString [])) (str_add package)) entries
       = Inr (map (\<lambda>(package, detail). package @ recorded_version detail) entries)"
    using Cons by simp
  show ?case unfolding e by (simp add: one rest)
qed

text \<open>
  C5. In lock mode the dependency lister reads the \<open>default\<close> section of
  \<^verbatim>\<open>Pipfile.lock\<close> and returns, for each entry in order, the package name followed by
  the version constraint the entry records, the empty string when it records none. The
  lock file is a JSON object whose \<open>default\<close> section maps each package to an object with
  an optional \<open>version\<close> string. The specification's own lock file gives
  \<^verbatim>\<open>["requests==2.0"]\<close>.
\<close>

theorem lock_mode_lists_name_and_version:
  assumes "map_of (json_files w) ''Pipfile.lock'' = Some (Some (JObject lock))"
    and "map_of lock ''default'' = Some (JObject entries)"
    and "\<forall>(package, detail) \<in> set entries. \<exists>d. detail = JObject d
       \<and> (map_of d ''version'' = None \<or> (\<exists>s. map_of d ''version'' = Some (JString s)))"
  shows "get_deps w True
    = Inr (map (\<lambda>(package, detail). package @ recorded_version detail) entries)"
  using assms(1,2) map_result_versions [OF assms(3)]
  by (simp add: get_deps_def get_deps_from_pipfile_def json_load_def json_get_def
      json_items_def then_do_def)

theorem lock_mode_lists_name_and_version_witness:
  "get_deps requests_lock True = Inr [''requests==2.0'']"
proof -
  have "get_deps requests_lock True
    = Inr (map (\<lambda>(package, detail). package @ recorded_version detail)
        [(''requests'', JObject [(''version'', JString ''==2.0'')])])"
    by (rule lock_mode_lists_name_and_version
        [where lock = "[(''default'',
          JObject [(''requests'', JObject [(''version'', JString ''==2.0'')])])]"])
      (simp_all add: requests_lock_def)
  then show ?thesis by (simp add: recorded_version_def)
qed

text \<open>
  C10. In lock mode, a lock file that is read and parsed to a JSON object without a
  \<open>default\<close> section gives the empty list, not an error.
\<close>

theorem lock_without_default_section:
  assumes "map_of (json_files w) ''Pipfile.lock'' = Some (Some (JObject lock))"
    and "map_of lock ''default'' = None"
  shows "get_deps w True = Inr []"
  using assms
  by (simp add: get_deps_def get_deps_from_pipfile_def json_load_def json_get_def
      json_items_def then_do_def)

theorem lock_without_default_section_witness:
  "map_of (json_files develop_only_lock) ''Pipfile.lock''
     = Some (Some (JObject [(''develop'',
          JObject [(''pytest'', JObject [(''version'', JString ''==7.0'')])])]))
   \<and> get_deps develop_only_lock True = Inr []"
proof -
  have f: "map_of (json_files develop_only_lock) ''Pipfile.lock''
     = Some (Some (JObject [(''develop'',
          JObject [(''pytest'', JObject [(''version'', JString ''==7.0'')])])]))"
    by (simp add: develop_only_lock_def)
  from lock_without_default_section [OF f] f show ?thesis by simp
qed

section \<open>Properties of the package mapper\<close>

lemma dict_update_keys: "fst ` set (dict_update d e) = fst ` set d \<union> fst ` set e"
  unfolding dict_update_def
proof (induction e arbitrary: d)
  case Nil
  then show ?case by simp
next
  case (Cons x e)
  obtain k v where x: "x = (k, v)" by (cases x)
  have "fst ` set (AList.update k v d) = insert k (fst ` set d)"
    using dom_update [of k v d] by (simp add: dom_map_of_conv_image_fst)
  then show ?case using Cons.IH [of "AList.update k v d"] by (auto simp: x)
qed

lemma to_packages_dir_keys: "fst ` set (to_packages_dir folder packages) = set packages"
  by (auto simp: to_packages_dir_def dict_of_items_def dict_update_keys image_iff)

text \<open>
  C6. Resource discovery returns exactly the names found under the resources root minus
  the excluded names; and a dotted name found under both the sources root and the
  resources root is among the source packages, is not among the resource packages and
  has no entry in the resources package map.
\<close>

theorem resources_exclude_sources:
  "set (find_resources_packages scan resources_folder excluded)
     = set (scan resources_folder) - set excluded
   \<and> (pkg \<in> set (scan SRC_FOLDER) \<and> pkg \<in> set (scan RESOURCES_FOLDER)
        \<longrightarrow> pkg \<in> set (src_packages (configure_packages scan))
          \<and> pkg \<notin> set (resources_packages (configure_packages scan))
          \<and> map_of (resources_packages_dir (configure_packages scan)) pkg = None)"
proof -
  have a: "set (find_resources_packages scan resources_folder excluded)
     = set (scan resources_folder) - set excluded" for resources_folder excluded
    by (auto simp: find_resources_packages_def)
  have "map_of (resources_packages_dir (configure_packages scan)) pkg = None"
    if "pkg \<in> set (scan SRC_FOLDER)"
  proof -
    have "pkg \<notin> fst ` set (resources_packages_dir (configure_packages scan))"
      using that by (simp add: configure_packages_def Let_def to_packages_dir_keys a)
    then show ?thesis by (simp add: map_of_eq_None_iff)
  qed
  then show ?thesis using a by (simp add: configure_packages_def Let_def)
qed

theorem resources_exclude_sources_witness:
  "''app'' \<in> set (scan_example SRC_FOLDER) \<and> ''app'' \<in> set (scan_example RESOURCES_FOLDER)
   \<and> ''app'' \<in> set (src_packages (configure_packages scan_example))
   \<and> ''app'' \<notin> set (resources_packages (configure_packages scan_example))
   \<and> map_of (resources_packages_dir (configure_packages scan_example)) ''app'' = None
   \<and> resources_packages (configure_packages scan_example) = [''app.data'', ''assets'']"
proof -
  have h: "''app'' \<in> set (scan_example SRC_FOLDER) \<and> ''app'' \<in> set (scan_example RESOURCES_FOLDER)"
    by (simp add: scan_example_def SRC_FOLDER_def RESOURCES_FOLDER_def MAIN_FOLDER_def)
  have r: "resources_packages (configure_packages scan_example) = [''app.data'', ''assets'']"
    by (simp add: configure_packages_def find_resources_packages_def scan_example_def Let_def
        SRC_FOLDER_def RESOURCES_FOLDER_def MAIN_FOLDER_def)
  from resources_exclude_sources [of scan_example RESOURCES_FOLDER "[]" "''app''"] h r
  show ?thesis by simp
qed

section \<open>Properties of the module search path\<close>

text \<open>
  C2, as the code has it. The four layout roots (source, resource, test source, test
  resource), made absolute, are appended to the module search path in that order: they
  come after all the entries that were there before, which keep their places.
\<close>

theorem sys_path_roots_appended:
  "configure_sys_path cwd sys_path
     = sys_path @ map (\<lambda>folder. as_posix (absolute cwd (Path folder)))
         [SRC_FOLDER, RESOURCES_FOLDER, TEST_SRC_FOLDER, TEST_RESOURCES_FOLDER]
   \<and> take (length sys_path) (configure_sys_path cwd sys_path) = sys_path"
  by (simp add: configure_sys_path_def)

theorem sys_path_roots_appended_witness:
  "configure_sys_path ''/proj'' [''/usr/lib/python3'']
     = [''/usr/lib/python3'', ''/proj/src/main/python'', ''/proj/src/main/resources'',
        ''/proj/src/test/python'', ''/proj/src/test/resources'']"
  using sys_path_roots_appended [of "''/proj''" "[''/usr/lib/python3'']"]
  by (simp add: SRC_FOLDER_def RESOURCES_FOLDER_def TEST_SRC_FOLDER_def TEST_RESOURCES_FOLDER_def
      MAIN_FOLDER_def TEST_FOLDER_def absolute_def Path_def joinpath_def as_posix_def)

text \<open>
  C2, as stated, says the four roots are prepended. With one entry on the search path
  beforehand, that entry stays first and the roots follow it.
\<close>

theorem sys_path_prepend_counterexample:
  "configure_sys_path ''/proj'' [''/usr/lib/python3'']
     \<noteq> [''/proj/src/main/python'', ''/proj/src/main/resources'',
        ''/proj/src/test/python'', ''/proj/src/test/resources'', ''/usr/lib/python3'']
   \<and> hd (configure_sys_path ''/proj'' [''/usr/lib/python3'']) = ''/usr/lib/python3''
   \<and> last (configure_sys_path ''/proj'' [''/usr/lib/python3'']) = ''/proj/src/test/resources''"
  by (simp add: configure_sys_path_def
      SRC_FOLDER_def RESOURCES_FOLDER_def TEST_SRC_FOLDER_def TEST_RESOURCES_FOLDER_def
      MAIN_FOLDER_def TEST_FOLDER_def absolute_def Path_def joinpath_def as_posix_def)

section \<open>Properties of the configuration parser\<close>

lemma escape_Nil: "str_replace ''$'' ''$$'' [] = []"
  by simp

lemma escape_Cons:
  "str_replace ''$'' ''$$'' (c # cs) =
     (if c = CHR ''$'' then ''$$'' @ str_replace ''$'' ''$$'' cs
      else c # str_replace ''$'' ''$$'' cs)"
  by simp

lemma escape_concat:
  "str_replace ''$'' ''$$'' v = concat (map (\<lambda>c. if c = CHR ''$'' then ''$$'' else [c]) v)"
  by (induction v) (simp_all only: escape_Nil escape_Cons, simp_all)

lemma interpolate_some_literal:
  assumes "c \<noteq> CHR ''$''"
  shows "interpolate_some p opt (c # r) sect m d =
     (case interpolate_some p opt r sect m d of Inl e \<Rightarrow> Inl e | Inr a \<Rightarrow> Inr (c # a))"
proof (cases "d > MAX_INTERPOLATION_DEPTH")
  case True
  then show ?thesis
    by (subst interpolate_some.simps, subst (2) interpolate_some.simps) simp
next
  case deep: False
  show ?thesis
  proof (cases "CHR ''$'' \<in> set r")
    case False
    then show ?thesis using deep assms
      by (subst interpolate_some.simps, subst (2) interpolate_some.simps) simp
  next
    case True
    then have r: "r \<noteq> []" by auto
    show ?thesis using deep assms True r
      apply (subst interpolate_some.simps)
      apply (subst (4) interpolate_some.simps)
      apply (simp add: Let_def split: sum.splits option.splits prod.splits)
      done
  qed
qed

lemma interpolate_some_escaped:
  "depth \<le> MAX_INTERPOLATION_DEPTH
   \<Longrightarrow> interpolate_some p opt (str_replace ''$'' ''$$'' v) sect m depth = Inr v"
proof (induction v)
  case Nil
  then show ?case by (subst interpolate_some.simps) simp
next
  case (Cons c v)
  show ?case
  proof (cases "c = CHR ''$''")
    case True
    have "interpolate_some p opt (CHR ''$'' # CHR ''$'' # str_replace ''$'' ''$$'' v) sect m depth
        = Inr (CHR ''$'' # v)"
      using Cons by (subst interpolate_some.simps) simp
    then show ?thesis using True by (simp only: escape_Cons) simp
  next
    case False
    then show ?thesis using Cons
      by (simp only: escape_Cons) (simp add: interpolate_some_literal)
  qed
qed

lemma char_lower_idem: "char_lower (char_lower c) = char_lower c"
proof -
  have "of_char (char_of (of_char c + 32 :: nat)) = (of_char c + 32 :: nat)"
    if "(of_char c :: nat) \<le> 222"
    using that by simp
  then show ?thesis by (auto simp: char_lower_def Let_def)
qed

lemma optionxform_idem: "optionxform (optionxform k) = optionxform k"
  by (simp add: optionxform_def lower_def char_lower_idem)

lemma dict_update_other:
  "k \<notin> fst ` set e \<Longrightarrow> map_of (dict_update d e) k = map_of d k"
  unfolding dict_update_def
  by (induction e arbitrary: d) (auto simp: update_conv')

lemma dict_update_distinct:
  "distinct (map fst e) \<Longrightarrow> map_of e k = Some x \<Longrightarrow> map_of (dict_update d e) k = Some x"
proof (induction e arbitrary: d)
  case Nil
  then show ?case by simp
next
  case (Cons a e)
  obtain k' v' where a: "a = (k', v')" by (cases a)
  have step: "dict_update d (a # e) = dict_update (AList.update k' v' d) e"
    by (simp add: dict_update_def a)
  show ?case
  proof (cases "k = k'")
    case True
    then have "x = v'" using Cons.prems(2) a by simp
    moreover have "k \<notin> fst ` set e" using Cons.prems(1) a True by auto
    ultimately show ?thesis
      using dict_update_other [of k e "AList.update k' v' d"] True
      by (simp add: step update_conv')
  next
    case False
    then have "map_of e k = Some x" using Cons.prems(2) a by simp
    then show ?thesis using Cons.IH Cons.prems(1) by (simp add: step)
  qed
qed

lemma dict_of_items_distinct:
  "distinct (map fst e) \<Longrightarrow> map_of e k = Some x \<Longrightarrow> map_of (dict_of_items e) k = Some x"
  by (simp add: dict_of_items_def dict_update_distinct)

lemma then_do_eq_Inr: "then_do r f = Inr y \<Longrightarrow> \<exists>x. r = Inr x \<and> f x = Inr y"
  by (cases r) simp_all

lemma before_set_Inr: "before_set v = Inr x \<Longrightarrow> x = v"
  by (simp add: before_set_def Let_def split: if_splits)

lemma parser_set_section:
  assumes "parser_set p s k v = Inr p1" "s \<noteq> []" "s \<noteq> default_section"
    "map_of (sections p) s = Some sd"
  shows "p1 = p\<lparr>sections := AList.update s (AList.update (optionxform k) v sd) (sections p)\<rparr>"
  using assms by (auto simp: parser_set_def dest!: then_do_eq_Inr before_set_Inr split: if_splits)

lemma read_dict_keys_stored:
  assumes "read_dict_keys p s kvs added = Inr p'" "s \<noteq> []" "s \<noteq> default_section"
    "map_of (sections p) s = Some sd"
  shows "\<exists>sd'. map_of (sections p') s = Some sd'
      \<and> (\<forall>(k, x) \<in> set kvs. map_of sd' (optionxform k) = Some x)
      \<and> (\<forall>key \<in> set added. map_of sd' key = map_of sd key)"
  using assms
proof (induction kvs arbitrary: p added sd)
  case Nil
  then show ?case by simp
next
  case (Cons a kvs)
  obtain k v where a: "a = (k, v)" by (cases a)
  let ?key = "optionxform k"
  from Cons.prems(1) have fresh: "?key \<notin> set added"
    by (auto simp: a Let_def split: if_splits)
  with Cons.prems(1) obtain p1 where p1: "parser_set p s ?key v = Inr p1"
    and rest: "read_dict_keys p1 s kvs (?key # added) = Inr p'"
    by (auto simp: a Let_def dest!: then_do_eq_Inr)
  let ?sd1 = "AList.update ?key v sd"
  have p1_eq: "p1 = p\<lparr>sections := AList.update s ?sd1 (sections p)\<rparr>"
    using parser_set_section [OF p1 Cons.prems(2,3,4)] by (simp add: optionxform_idem)
  then have sec1: "map_of (sections p1) s = Some ?sd1"
    by (simp add: update_conv')
  from Cons.IH [OF rest Cons.prems(2,3) sec1] obtain sd' where
    sd': "map_of (sections p') s = Some sd'"
      "\<forall>(k, x) \<in> set kvs. map_of sd' (optionxform k) = Some x"
      "\<forall>key \<in> set (?key # added). map_of sd' key = map_of ?sd1 key"
    by blast
  have "map_of sd' ?key = Some v" using sd'(3) by (simp add: update_conv')
  moreover have "\<forall>key \<in> set added. map_of sd' key = map_of sd key"
    using sd'(3) fresh by (auto simp: update_conv')
  ultimately show ?case using sd'(1,2) by (auto simp: a)
qed

lemma read_dict_unfold:
  "s \<noteq> default_section \<Longrightarrow>
   read_dict p s kvs =
     read_dict_keys
       (if has_section p s then p else p\<lparr>sections := AList.update s [] (sections p)\<rparr>)
       s kvs []"
  by (simp add: read_dict_def add_section_def Let_def)

lemma parser_setitem_stored:
  assumes "parser_setitem p s kvs = Inr p'" "s \<noteq> []" "s \<noteq> default_section"
    "(k, x) \<in> set kvs"
  shows "\<exists>sd'. map_of (sections p') s = Some sd' \<and> map_of sd' (optionxform k) = Some x"
proof -
  define p2 where "p2 = p\<lparr>sections := AList.update s [] (sections p)\<rparr>"
  have has: "has_section p2 s"
    by (simp add: p2_def has_section_def update_conv')
  have run: "read_dict_keys p2 s kvs [] = Inr p'"
  proof (cases "has_section p s")
    case True
    then show ?thesis
      using assms(1,3) has by (simp add: parser_setitem_def read_dict_unfold p2_def Let_def)
  next
    case False
    then show ?thesis
      using assms(1,3) by (simp add: parser_setitem_def read_dict_unfold p2_def Let_def)
  qed
  have "map_of (sections p2) s = Some []"
    by (simp add: p2_def update_conv')
  from read_dict_keys_stored [OF run assms(2,3) this] assms(4) show ?thesis by blast
qed

lemma parser_get_stored:
  assumes "map_of (sections p) s = Some sd"
    "map_of sd (optionxform k) = Some (str_replace ''$'' ''$$'' v)"
  shows "parser_get p s k = Inr v"
  using assms
  by (simp add: parser_get_def unify_values_def before_get_def interpolate_some_escaped
      MAX_INTERPOLATION_DEPTH_def)

lemma update_fresh: "k \<notin> fst ` set d \<Longrightarrow> AList.update k v d = d @ [(k, v)]"
  by (induction d) auto

lemma dict_update_append:
  "distinct (map fst (d @ e)) \<Longrightarrow> dict_update d e = d @ e"
proof (induction e arbitrary: d)
  case Nil
  then show ?case by (simp add: dict_update_def)
next
  case (Cons a e)
  obtain k v where a: "a = (k, v)" by (cases a)
  have fresh: "k \<notin> fst ` set d" using Cons.prems a by auto
  have "dict_update d (a # e) = dict_update (d @ [(k, v)]) e"
    by (simp add: dict_update_def a update_fresh [OF fresh])
  also have "\<dots> = (d @ [(k, v)]) @ e"
    using Cons.prems a by (intro Cons.IH) simp
  finally show ?case by (simp add: a)
qed

lemma dict_of_items_id: "distinct (map fst e) \<Longrightarrow> dict_of_items e = e"
  using dict_update_append [of "[]" e] by (simp add: dict_of_items_def)

lemma dict_update_keys_distinct:
  "distinct (map fst d) \<Longrightarrow> distinct (map fst (dict_update d e))"
  unfolding dict_update_def
  by (induction e arbitrary: d) (auto simp: distinct_update)

lemma map_fst_escaped:
  "map fst (map (\<lambda>(k, v). (k, f v)) xs) = map fst xs"
  by (induction xs) auto

lemma esc_env_vars_distinct:
  assumes "distinct (map fst os_environ)"
  shows "esc_env_vars os_environ = map (\<lambda>(k, v). (k, str_replace ''$'' ''$$'' v)) os_environ"
proof -
  let ?e = "map (\<lambda>(k, v). (k, str_replace ''$'' ''$$'' v)) os_environ"
  have "distinct (map fst ?e)" using assms by (simp only: map_fst_escaped)
  then have "dict_of_items ?e = ?e" by (rule dict_of_items_id)
  then show ?thesis by (simp only: esc_env_vars_def)
qed

lemma esc_env_vars_lookup:
  assumes "distinct (map fst os_environ)" "(k, v) \<in> set os_environ"
  shows "map_of (esc_env_vars os_environ) k = Some (str_replace ''$'' ''$$'' v)"
    and "distinct (map fst (esc_env_vars os_environ))"
proof -
  let ?e = "map (\<lambda>(k, v). (k, str_replace ''$'' ''$$'' v)) os_environ"
  have e: "esc_env_vars os_environ = ?e" using assms(1) by (rule esc_env_vars_distinct)
  have dist: "distinct (map fst ?e)" using assms(1) by (simp only: map_fst_escaped)
  have "(k, str_replace ''$'' ''$$'' v) \<in> set ?e" using assms(2) by force
  with dist have "map_of ?e k = Some (str_replace ''$'' ''$$'' v)" by (rule map_of_is_SomeI)
  then show "map_of (esc_env_vars os_environ) k = Some (str_replace ''$'' ''$$'' v)"
    by (simp only: e)
  show "distinct (map fst (esc_env_vars os_environ))"
    using dist by (simp only: e)
qed

lemma load_example:
  "load_project_ini_file [(''project.ini'', Inr project_ini)] process_env ''project.ini'' ''ENV''
   = Inr \<lparr>defaults = [],
        sections =
          [(''PROJECT'', [(''name'', ''demo''), (''url'', ''${ENV:home}/demo'')]),
           (''ENV'', [(''home'', ''/from/env''), (''price'', ''5$$'')]),
           (''PROJECT.ENTRY_POINTS'',
            [(''console_scripts'', CHR 0x0A # ''run = app.main:main'')])]\<rparr>"
  by code_simp

text \<open>
  C4. In the environment snapshot every \<open>$\<close> of a variable's value is doubled, and the
  interpolation engine reads the escaped value back as the original value, whatever the
  parser, section, option and defaults it is read with.
\<close>

theorem dollar_escape_round_trip:
  assumes "distinct (map fst os_environ)" and "(k, v) \<in> set os_environ"
  shows "map_of (esc_env_vars os_environ) k
      = Some (concat (map (\<lambda>c. if c = CHR ''$'' then ''$$'' else [c]) v))
    \<and> before_get parser section_name option_name
        (concat (map (\<lambda>c. if c = CHR ''$'' then ''$$'' else [c]) v)) dflts = Inr v"
  using esc_env_vars_lookup(1) [OF assms]
    interpolate_some_escaped [of 1 parser option_name v section_name dflts]
  by (simp add: escape_concat before_get_def MAX_INTERPOLATION_DEPTH_def)

theorem dollar_escape_round_trip_witness:
  "map_of (esc_env_vars process_env) ''price'' = Some ''5$$''
   \<and> before_get project_ini ''ENV'' ''price'' ''5$$'' Map.empty = Inr ''5$''"
proof -
  have d: "distinct (map fst process_env)" by (simp add: process_env_def)
  have m: "(''price'', ''5$'') \<in> set process_env" by (simp add: process_env_def)
  from dollar_escape_round_trip [OF d m, of project_ini "''ENV''" "''price''" Map.empty]
  show ?thesis by simp
qed

text \<open>
  C1, as the code has it. \<^verbatim>\<open>dict(config_parser[section], **esc_env_vars)\<close> lets the
  environment override the file: whenever the load succeeds, every variable of the process
  environment, also one whose key the file's environment section defines, is read back
  from that section with the environment's value. (The environment is a dictionary, so
  its keys are distinct.)
\<close>

theorem environment_value_wins:
  assumes "load_project_ini_file ini_files os_environ file_path environment_section = Inr p"
    and "environment_section \<noteq> []" and "environment_section \<noteq> default_section"
    and "distinct (map fst os_environ)"
    and "(k, v) \<in> set os_environ"
  shows "parser_get p environment_section k = Inr v"
proof -
  let ?esc = "esc_env_vars os_environ"
  have lk: "map_of ?esc k = Some (str_replace ''$'' ''$$'' v)"
    and dist: "distinct (map fst ?esc)"
    using esc_env_vars_lookup [OF assms(4,5)] by simp_all
  from assms(1) obtain cfg where cfg: "parser_read ini_files file_path = Inr cfg"
    and body: "(if has_section cfg environment_section
       then then_do (section_proxy_dict cfg environment_section) (\<lambda>d.
              parser_setitem cfg environment_section (dict_update d ?esc))
       else parser_setitem cfg environment_section ?esc) = Inr p"
    unfolding load_project_ini_file_def by (auto dest!: then_do_eq_Inr)
  have "\<exists>merged. parser_setitem cfg environment_section merged = Inr p
      \<and> (k, str_replace ''$'' ''$$'' v) \<in> set merged"
  proof (cases "has_section cfg environment_section")
    case True
    with body obtain d where
      "parser_setitem cfg environment_section (dict_update d ?esc) = Inr p"
      by (auto dest!: then_do_eq_Inr)
    moreover have "map_of (dict_update d ?esc) k = Some (str_replace ''$'' ''$$'' v)"
      using dict_update_distinct [OF dist lk] .
    ultimately show ?thesis by (blast dest: map_of_SomeD)
  next
    case False
    with body have "parser_setitem cfg environment_section ?esc = Inr p" by simp
    then show ?thesis using lk by (blast dest: map_of_SomeD)
  qed
  then obtain merged where m: "parser_setitem cfg environment_section merged = Inr p"
    "(k, str_replace ''$'' ''$$'' v) \<in> set merged" by blast
  from parser_setitem_stored [OF m(1) assms(2,3) m(2)] obtain sd' where
    "map_of (sections p) environment_section = Some sd'"
    "map_of sd' (optionxform k) = Some (str_replace ''$'' ''$$'' v)" by blast
  then show ?thesis by (rule parser_get_stored)
qed

theorem environment_value_wins_witness:
  "parser_get \<lparr>defaults = [],
        sections =
          [(''PROJECT'', [(''name'', ''demo''), (''url'', ''${ENV:home}/demo'')]),
           (''ENV'', [(''home'', ''/from/env''), (''price'', ''5$$'')]),
           (''PROJECT.ENTRY_POINTS'',
            [(''console_scripts'', CHR 0x0A # ''run = app.main:main'')])]\<rparr> ''ENV'' ''home''
   = Inr ''/from/env''"
proof (rule environment_value_wins [OF load_example])
  show "''ENV'' \<noteq> []" by simp
  show "''ENV'' \<noteq> default_section" by (simp add: default_section_def)
  show "distinct (map fst process_env)" by (simp add: process_env_def)
  show "(''home'', ''/from/env'') \<in> set process_env" by (simp add: process_env_def)
qed

text \<open>
  C1, as stated, says the file's value is kept. The file defines \<open>home\<close> in its \<open>ENV\<close>
  section, the environment defines \<open>home\<close> too, and the loaded configuration holds the
  environment's value.
\<close>

theorem file_value_wins_counterexample:
  "has_section project_ini ''ENV''
   \<and> get_raw project_ini ''ENV'' ''home'' = Inr ''/from/file''
   \<and> map_of process_env ''home'' = Some ''/from/env''
   \<and> load_project_ini_file [(''project.ini'', Inr project_ini)] process_env ''project.ini'' ''ENV''
       = Inr \<lparr>defaults = [],
           sections =
             [(''PROJECT'', [(''name'', ''demo''), (''url'', ''${ENV:home}/demo'')]),
              (''ENV'', [(''home'', ''/from/env''), (''price'', ''5$$'')]),
              (''PROJECT.ENTRY_POINTS'',
               [(''console_scripts'', CHR 0x0A # ''run = app.main:main'')])]\<rparr>
   \<and> parser_get \<lparr>defaults = [],
           sections =
             [(''PROJECT'', [(''name'', ''demo''), (''url'', ''${ENV:home}/demo'')]),
              (''ENV'', [(''home'', ''/from/env''), (''price'', ''5$$'')]),
              (''PROJECT.ENTRY_POINTS'',
               [(''console_scripts'', CHR 0x0A # ''run = app.main:main'')])]\<rparr> ''ENV'' ''home''
       \<noteq> Inr ''/from/file''"
  by code_simp

lemma map_result_keys:
  "map_result (\<lambda>(option, v). then_do (g option v) (\<lambda>value. Inr (option, value))) d = Inr its
   \<Longrightarrow> map fst its = map fst d"
proof (induction d arbitrary: its)
  case Nil
  then show ?case by simp
next
  case (Cons a d)
  obtain k v where a: "a = (k, v)" by (cases a)
  from Cons.prems obtain y rest where
    "g k v = Inr y"
    "map_result (\<lambda>(option, v). then_do (g option v) (\<lambda>value. Inr (option, value))) d = Inr rest"
    "its = (k, y) # rest"
    by (auto simp: a dest!: then_do_eq_Inr)
  then show ?case using Cons.IH by (simp add: a)
qed

lemma parser_items_keys:
  assumes "parser_items cfg s = Inr its" "distinct (map fst (defaults cfg))"
  shows "distinct (map fst its)"
proof -
  from assms(1) obtain d where d: "items_raw cfg s = Inr d"
    and its: "map_result (\<lambda>(option, v).
           then_do (before_get cfg s option v (map_of d)) (\<lambda>value. Inr (option, value))) d
         = Inr its"
    unfolding parser_items_def by (auto dest!: then_do_eq_Inr)
  have "distinct (map fst d)"
    using d assms(2)
    by (auto simp: items_raw_def dict_update_keys_distinct split: option.splits if_splits)
  moreover have "map fst its = map fst d" using its by (rule map_result_keys)
  ultimately show ?thesis by simp
qed

text \<open>
  C3, as the code has it. The loader returns \<open>None\<close> exactly when the section is absent.
  Otherwise an interpolation error of the section's items is raised, or every key of the
  items is mapped to all the lines of its value as \<^verbatim>\<open>str.splitlines\<close> gives them, empty
  lines included, with no validation. (The keys of the parser's defaults are distinct, as
  those of a dictionary are.)
\<close>

theorem entry_points_absent_or_all_lines:
  assumes "distinct (map fst (defaults cfg))"
  shows "(load_entry_points cfg s = Inr None) = (\<not> has_section cfg s)
    \<and> (has_section cfg s \<longrightarrow>
         (case parser_items cfg s of
            Inl e \<Rightarrow> load_entry_points cfg s = Inl e
          | Inr its \<Rightarrow>
              load_entry_points cfg s = Inr (Some (map (\<lambda>(k, v). (k, splitlines v)) its))
              \<and> (\<forall>(k, v) \<in> set its.
                    map_of (map (\<lambda>(k, v). (k, splitlines v)) its) k = Some (splitlines v))))"
proof (cases "has_section cfg s")
  case False
  then show ?thesis by (simp add: load_entry_points_def)
next
  case has: True
  show ?thesis
  proof (cases "parser_items cfg s")
    case (Inl e)
    then show ?thesis using has by (simp add: load_entry_points_def)
  next
    case (Inr its)
    let ?eps = "map (\<lambda>(k, v). (k, splitlines v)) its"
    have "distinct (map fst its)" using Inr assms by (rule parser_items_keys)
    then have dist: "distinct (map fst ?eps)" by (simp only: map_fst_escaped)
    then have "dict_of_items ?eps = ?eps" by (rule dict_of_items_id)
    then have r: "load_entry_points cfg s = Inr (Some ?eps)"
      using has Inr by (simp add: load_entry_points_def)
    have "map_of ?eps k = Some (splitlines v)" if "(k, v) \<in> set its" for k v
    proof -
      have "(k, splitlines v) \<in> set ?eps" using that by force
      with dist show ?thesis by (rule map_of_is_SomeI)
    qed
    then show ?thesis using has Inr r by auto
  qed
qed

theorem entry_points_absent_or_all_lines_witness:
  "load_entry_points project_ini ''PROJECT.ENTRY_POINTS''
     = Inr (Some [(''console_scripts'', ['''', ''run = app.main:main''])])
   \<and> load_entry_points project_ini ''PROJECT.SCRIPTS'' = Inr None"
proof -
  have d: "distinct (map fst (defaults project_ini))" by (simp add: project_ini_def)
  have h: "has_section project_ini ''PROJECT.ENTRY_POINTS''" by code_simp
  have n: "\<not> has_section project_ini ''PROJECT.SCRIPTS''" by code_simp
  have i: "parser_items project_ini ''PROJECT.ENTRY_POINTS''
      = Inr [(''console_scripts'', CHR 0x0A # ''run = app.main:main'')]" by code_simp
  have l: "splitlines (CHR 0x0A # ''run = app.main:main'') = ['''', ''run = app.main:main'']"
    by code_simp
  from entry_points_absent_or_all_lines [OF d, of "''PROJECT.ENTRY_POINTS''"] h i l
  have "load_entry_points project_ini ''PROJECT.ENTRY_POINTS''
     = Inr (Some [(''console_scripts'', ['''', ''run = app.main:main''])])" by simp
  moreover from entry_points_absent_or_all_lines [OF d, of "''PROJECT.SCRIPTS''"] n
  have "load_entry_points project_ini ''PROJECT.SCRIPTS'' = Inr None" by simp
  ultimately show ?thesis by simp
qed

text \<open>
  C3, as stated, says only the non-empty lines are returned. For a console script written
  on the line after its key, the stored value starts with a line break, and the loader
  returns the empty first line too.
\<close>

theorem entry_points_non_empty_lines_counterexample:
  "has_section project_ini ''PROJECT.ENTRY_POINTS''
   \<and> get_raw project_ini ''PROJECT.ENTRY_POINTS'' ''console_scripts''
       = Inr (CHR 0x0A # ''run = app.main:main'')
   \<and> load_entry_points project_ini ''PROJECT.ENTRY_POINTS''
       = Inr (Some [(''console_scripts'', ['''', ''run = app.main:main''])])
   \<and> load_entry_points project_ini ''PROJECT.ENTRY_POINTS''
       \<noteq> Inr (Some [(''console_scripts'', [''run = app.main:main''])])"
  by code_simp

section \<open>Properties of the test command\<close>










end
